theory Spec2Isabelle
  imports Main
begin

section \<open>The voice-or-text query controller of static/script.js\<close>

text \<open>
  The script wires a speech engine (annyang), a text field, a send button and a message
  container to one backend endpoint. It runs on the browser's single-threaded event loop:
  every handler runs to completion, and \<^verbatim>\<open>sendQueryToServer\<close> suspends once, at its
  \<^verbatim>\<open>await\<close>. The model is a state record and one function per handler; the event loop
  is the function \<open>step\<close>, one event at a time.

  What belongs to the platform and not to the script is made explicit:
  \<^item> strings are lists of 8-bit characters, read as the code points U+0000 to U+00FF;
  \<^item> \<^verbatim>\<open>JSON.stringify(errorResult, null, 2)\<close> is the parameter \<open>stringify\<close>, and reading
    \<^verbatim>\<open>result.response\<close> as a string is the parameter \<open>response_of\<close> (\<open>None\<close> when the
    parsed body has no string there, so that \<^verbatim>\<open>.replace\<close> raises a TypeError);
  \<^item> the speech engine is driven by calls and answers with events: the script calls
    \<^verbatim>\<open>start\<close> and \<^verbatim>\<open>abort\<close>, and \<^verbatim>\<open>annyang.isListening()\<close> becomes true at the engine's
    start event and false at its end event, never inside a call. The end event follows an
    \<^verbatim>\<open>abort\<close>, and it also comes when the engine ends by itself, since the script
    starts it with \<^verbatim>\<open>autoRestart: false\<close> and registers no callback for the end;
  \<^item> scrolling and \<^verbatim>\<open>console.error\<close> are not modelled; the branch taken when annyang is
    absent (an alert, no handler installed) is not modelled either.
\<close>

subsection \<open>Strings\<close>

definition is_js_space :: "char \<Rightarrow> bool" where
  \<comment> \<open>WhiteSpace and LineTerminator of ECMAScript below U+0100: TAB, LF, VT, FF, CR, SP, NBSP.\<close>
  "is_js_space c =
     (c = CHR 0x09 \<or> c = CHR 0x0A \<or> c = CHR 0x0B \<or> c = CHR 0x0C \<or> c = CHR 0x0D
      \<or> c = CHR 0x20 \<or> c = CHR 0xA0)"

definition trim :: "string \<Rightarrow> string" where
  \<comment> \<open>\<^verbatim>\<open>String.prototype.trim\<close>\<close>
  "trim s = rev (dropWhile is_js_space (rev (dropWhile is_js_space s)))"

definition replace_newlines :: "string \<Rightarrow> string" where
  \<comment> \<open>\<^verbatim>\<open>.replace(/\n/g, "<br>")\<close>\<close>
  "replace_newlines s = concat (map (\<lambda>c. if c = CHR 0x0A then ''<br>'' else [c]) s)"

subsection \<open>Data\<close>

datatype content = NoContent | InnerHTML string | InnerText string

record node =
  node_id :: nat
  classes :: "string list"
  content :: content

record request =
  req_url :: string
  req_method :: string
  req_headers :: "(string \<times> string) list"
  req_body :: "(string \<times> string) list"

datatype 'j body_read = JsonRejected | JsonValue 'j

datatype 'j outcome = FetchRejected | Responded bool "'j body_read"

datatype engine_call = Start bool bool | Abort

record state =
  field :: string
  transcript :: "node list"
  inactivityTimer :: "nat option"
  timers :: "(nat \<times> nat) list"
  now :: nat
  listening :: bool
  engine_calls :: "engine_call list"
  mic_active :: bool
  requests :: "request list"
  inflight :: "(nat \<times> nat) list"
  next_node :: nat
  next_timer :: nat

text \<open>
  \<open>field\<close> is \<^verbatim>\<open>queryField.value\<close>; \<open>transcript\<close> is the child list of
  \<^verbatim>\<open>messagesContainer\<close>; \<open>inactivityTimer\<close> is the variable of that name (\<open>None\<close> while it
  is undefined); \<open>timers\<close> is the browser's table of pending timeouts, each with its
  identifier and the time it is due, and \<open>now\<close> is the clock in milliseconds;
  \<open>listening\<close> is \<^verbatim>\<open>annyang.isListening()\<close>; \<open>engine_calls\<close> is the log of the calls made to
  the engine, \<open>Start continuous autoRestart\<close> for \<^verbatim>\<open>annyang.start\<close> with these options and
  \<open>Abort\<close> for \<^verbatim>\<open>annyang.abort\<close>; \<open>mic_active\<close> is the presence of the class
  \<^verbatim>\<open>mic-active\<close> on the button's image; \<open>requests\<close> is the log of the calls of
  \<^verbatim>\<open>fetch\<close>; \<open>inflight\<close> holds the suspended calls of \<^verbatim>\<open>sendQueryToServer\<close>, each with
  the index of its request in the log and the identity of the \<^verbatim>\<open>loadingSpinner\<close> its
  closure holds. \<open>next_node\<close> and \<open>next_timer\<close> give fresh identities to created elements
  and timeouts.
\<close>

definition silenceDelay :: nat where
  "silenceDelay = 3000"

text \<open>
  The state once the script has loaded: no timeout is set and the engine is not started,
  since the script does neither at load time. The page's markup is not part of the script;
  the field and the transcript are taken to be empty and the indicator inactive.
\<close>

definition init_state :: state where
  "init_state =
     \<lparr>field = '''', transcript = [], inactivityTimer = None, timers = [], now = 0,
      listening = False, engine_calls = [], mic_active = False, requests = [],
      inflight = [],
      next_node = 0, next_timer = 0\<rparr>"

subsection \<open>Platform operations\<close>

definition appendChild :: "state \<Rightarrow> node \<Rightarrow> state" where
  "appendChild s n = s\<lparr>transcript := transcript s @ [n]\<rparr>"

definition remove_node :: "nat \<Rightarrow> node list \<Rightarrow> node list" where
  "remove_node k ns = filter (\<lambda>n. node_id n \<noteq> k) ns"

definition clearTimeout :: "state \<Rightarrow> nat option \<Rightarrow> state" where
  "clearTimeout s h =
     (case h of
        None \<Rightarrow> s
      | Some i \<Rightarrow> s\<lparr>timers := filter (\<lambda>t. fst t \<noteq> i) (timers s)\<rparr>)"

definition setTimeout :: "state \<Rightarrow> nat \<Rightarrow> nat \<times> state" where
  "setTimeout s d =
     (next_timer s,
      s\<lparr>timers := timers s @ [(next_timer s, now s + d)], next_timer := Suc (next_timer s)\<rparr>)"

definition annyang_start :: "state \<Rightarrow> bool \<Rightarrow> bool \<Rightarrow> state" where
  \<comment> \<open>the call is logged; the flag follows at the engine's start event\<close>
  "annyang_start s continuous autoRestart =
     s\<lparr>engine_calls := engine_calls s @ [Start continuous autoRestart]\<rparr>"

definition annyang_abort :: "state \<Rightarrow> state" where
  \<comment> \<open>the call is logged; the flag follows at the engine's end event\<close>
  "annyang_abort s = s\<lparr>engine_calls := engine_calls s @ [Abort]\<rparr>"

definition fetch :: "state \<Rightarrow> request \<Rightarrow> nat \<Rightarrow> state" where
  \<comment> \<open>the request is logged; the caller is suspended, holding the spinner \<open>k\<close>\<close>
  "fetch s r k =
     s\<lparr>requests := requests s @ [r], inflight := inflight s @ [(length (requests s), k)]\<rparr>"

subsection \<open>The handlers\<close>

definition sendQueryToServer :: "state \<Rightarrow> string \<Rightarrow> state" where
  \<comment> \<open>lines 51 to 75: up to the \<^verbatim>\<open>await\<close>\<close>
  "sendQueryToServer s query =
     (let queryDiv = \<lparr>node_id = next_node s, classes = [''query-message''],
                      content = InnerHTML query\<rparr>;
          loadingSpinner = \<lparr>node_id = Suc (next_node s), classes = [''loading-spinner''],
                            content = NoContent\<rparr>;
          s1 = appendChild (appendChild (s\<lparr>next_node := Suc (Suc (next_node s))\<rparr>) queryDiv)
                 loadingSpinner;
          s2 = s1\<lparr>field := ''''\<rparr>;
          data = [(''query'', query)]
      in fetch s2
           \<lparr>req_url = ''/query'', req_method = ''POST'',
            req_headers = [(''Content-Type'', ''application/json'')], req_body = data\<rparr>
           (node_id loadingSpinner))"

definition catch_block :: "state \<Rightarrow> state" where
  \<comment> \<open>lines 100 to 107\<close>
  "catch_block s =
     appendChild (s\<lparr>next_node := Suc (next_node s)\<rparr>)
       \<lparr>node_id = next_node s, classes = [''error''],
        content = InnerHTML
          ''An error occurred while processing your query. Please try again later.''\<rparr>"

definition resume ::
  "('j \<Rightarrow> string) \<Rightarrow> ('j \<Rightarrow> string option) \<Rightarrow> state \<Rightarrow> nat \<Rightarrow> 'j outcome \<Rightarrow> state" where
  \<comment> \<open>lines 77 to 107: the rest of \<^verbatim>\<open>sendQueryToServer\<close>, once the request \<open>rid\<close> has
      settled. Nothing is read or written between \<^verbatim>\<open>await fetch\<close> and
      \<^verbatim>\<open>await response.json()\<close>, so both are one event.\<close>
  "resume stringify response_of s rid out =
     (case map_of (inflight s) rid of
        None \<Rightarrow> s
      | Some loadingSpinner \<Rightarrow>
          let s0 = s\<lparr>inflight := filter (\<lambda>p. fst p \<noteq> rid) (inflight s)\<rparr> in
          (case out of
             FetchRejected \<Rightarrow> catch_block s0
           | Responded ok b \<Rightarrow>
               if ok then
                 (case b of
                    JsonRejected \<Rightarrow> catch_block s0
                  | JsonValue result \<Rightarrow>
                      let s1 = s0\<lparr>transcript := remove_node loadingSpinner (transcript s0)\<rparr>;
                          s2 = s1\<lparr>next_node := Suc (next_node s1)\<rparr>
                      in (case response_of result of
                            None \<Rightarrow> catch_block s2
                          | Some r \<Rightarrow>
                              (annyang_abort
                                 (appendChild s2
                                    \<lparr>node_id = next_node s1, classes = [''response''],
                                     content = InnerHTML (replace_newlines r)\<rparr>))
                              \<lparr>mic_active := False\<rparr>))
               else
                 (case b of
                    JsonRejected \<Rightarrow> catch_block s0
                  | JsonValue errorResult \<Rightarrow>
                      appendChild (s0\<lparr>next_node := Suc (next_node s0)\<rparr>)
                        \<lparr>node_id = next_node s0, classes = [''error''],
                         content = InnerText (''Error: '' @ stringify errorResult)\<rparr>)))"

definition timer_callback :: "state \<Rightarrow> state" where
  \<comment> \<open>lines 27 to 32\<close>
  "timer_callback s =
     (let trimmedQuery = trim (field s)
      in if trimmedQuery \<noteq> '''' then sendQueryToServer s trimmedQuery else s)"

definition on_query :: "state \<Rightarrow> string \<Rightarrow> state" where
  \<comment> \<open>lines 19 to 33: the handler of the command \<^verbatim>\<open>*query\<close>\<close>
  "on_query s query =
     (let s1 = s\<lparr>field := query\<rparr>;
          s2 = clearTimeout s1 (inactivityTimer s1);
          (h, s3) = setTimeout s2 silenceDelay
      in s3\<lparr>inactivityTimer := Some h\<rparr>)"

definition timer_fire :: "state \<Rightarrow> nat \<Rightarrow> state" where
  \<comment> \<open>the browser runs the callback of a pending timeout once it is due, and forgets it\<close>
  "timer_fire s i =
     (case map_of (timers s) i of
        None \<Rightarrow> s
      | Some due \<Rightarrow>
          if due \<le> now s
          then timer_callback (s\<lparr>timers := filter (\<lambda>t. fst t \<noteq> i) (timers s)\<rparr>)
          else s)"

definition voice_click :: "state \<Rightarrow> state" where
  \<comment> \<open>lines 40 to 48\<close>
  "voice_click s =
     (if listening s then (annyang_abort s)\<lparr>mic_active := False\<rparr>
      else (annyang_start s True False)\<lparr>mic_active := True\<rparr>)"

definition empty_query_error :: "state \<Rightarrow> state" where
  \<comment> \<open>lines 115 to 119, and 131 to 135\<close>
  "empty_query_error s =
     appendChild (s\<lparr>next_node := Suc (next_node s)\<rparr>)
       \<lparr>node_id = next_node s, classes = [''error''],
        content = InnerHTML ''Error: Please enter a query before sending.''\<rparr>"

definition send_click :: "state \<Rightarrow> state" where
  \<comment> \<open>lines 111 to 123\<close>
  "send_click s =
     (let query = trim (field s)
      in if query = '''' then empty_query_error s else sendQueryToServer s query)"

definition keydown :: "state \<Rightarrow> string \<Rightarrow> bool \<Rightarrow> state" where
  \<comment> \<open>lines 126 to 142; the arguments are \<^verbatim>\<open>event.key\<close> and \<^verbatim>\<open>event.shiftKey\<close>\<close>
  "keydown s key shiftKey =
     (if key = ''Enter'' \<and> \<not> shiftKey then
        (let query = trim (field s)
         in if query = '''' then empty_query_error s else sendQueryToServer s query)
      else s)"

subsection \<open>The event loop\<close>

datatype 'j event =
    Speech string
  | Advance nat
  | TimerFire nat
  | VoiceClick
  | SendClick
  | KeyDown string bool
  | Typed string
  | Settled nat "'j outcome"
  | EngineStarted
  | EngineEnded

text \<open>
  \<open>Speech\<close> is a transcript fragment delivered by the engine; \<open>Advance\<close> lets time pass;
  \<open>TimerFire\<close> is the expiry of a timeout, which does nothing unless that timeout is
  pending and due; \<open>Typed\<close> is the user editing the text field, which no handler of the
  script observes; \<open>Settled\<close> is the completion of a request, which does nothing unless
  that request is in flight; \<open>EngineStarted\<close> and \<open>EngineEnded\<close> are the engine's start and
  end events. The loop does not say when the engine fires them: a start event answers a
  call of \<^verbatim>\<open>start\<close>, an end event answers a call of \<^verbatim>\<open>abort\<close> or comes by itself.
\<close>

definition step ::
  "('j \<Rightarrow> string) \<Rightarrow> ('j \<Rightarrow> string option) \<Rightarrow> state \<Rightarrow> 'j event \<Rightarrow> state" where
  "step stringify response_of s e =
     (case e of
        Speech q \<Rightarrow> on_query s q
      | Advance d \<Rightarrow> s\<lparr>now := now s + d\<rparr>
      | TimerFire i \<Rightarrow> timer_fire s i
      | VoiceClick \<Rightarrow> voice_click s
      | SendClick \<Rightarrow> send_click s
      | KeyDown key shiftKey \<Rightarrow> keydown s key shiftKey
      | Typed v \<Rightarrow> s\<lparr>field := v\<rparr>
      | Settled rid out \<Rightarrow> resume stringify response_of s rid out
      | EngineStarted \<Rightarrow> s\<lparr>listening := True\<rparr>
      | EngineEnded \<Rightarrow> s\<lparr>listening := False\<rparr>)"

definition run ::
  "('j \<Rightarrow> string) \<Rightarrow> ('j \<Rightarrow> string option) \<Rightarrow> state \<Rightarrow> 'j event list \<Rightarrow> state" where
  "run stringify response_of s es = foldl (step stringify response_of) s es"

subsection \<open>Invariants and traces\<close>

text \<open>
  \<open>timers_ok\<close>: at most one timeout is pending, and the variable \<^verbatim>\<open>inactivityTimer\<close> holds
  its identifier. \<open>ids_ok\<close>: the identities of the nodes in the transcript and of the
  requests in flight have all been handed out already, so that the next ones are fresh.
  \<open>within_delay t es\<close>: the events \<open>es\<close> contain no click on Send and no key press, and
  the time since the last fragment, \<open>t\<close> at the start, stays below the delay.
  \<open>armed s t\<close>: \<open>t\<close> milliseconds after the last fragment, with \<open>t\<close> below the delay,
  every pending timeout is due a whole delay after that fragment.
\<close>

definition timers_ok :: "state \<Rightarrow> bool" where
  "timers_ok s =
     (length (timers s) \<le> 1
      \<and> list_all (\<lambda>t. inactivityTimer s = Some (fst t)) (timers s))"

definition ids_ok :: "state \<Rightarrow> bool" where
  "ids_ok s =
     (list_all (\<lambda>n. node_id n < next_node s) (transcript s)
      \<and> list_all (\<lambda>p. fst p < length (requests s)) (inflight s))"

fun within_delay :: "nat \<Rightarrow> 'j event list \<Rightarrow> bool" where
  "within_delay t [] = True"
| "within_delay t (Speech q # es) = within_delay 0 es"
| "within_delay t (Advance d # es) = (t + d < silenceDelay \<and> within_delay (t + d) es)"
| "within_delay t (SendClick # es) = False"
| "within_delay t (KeyDown k sh # es) = False"
| "within_delay t (_ # es) = within_delay t es"

definition armed :: "state \<Rightarrow> nat \<Rightarrow> bool" where
  "armed s t =
     (timers_ok s \<and> t < silenceDelay
      \<and> list_all (\<lambda>p. now s + silenceDelay \<le> snd p + t) (timers s))"

section \<open>Properties\<close>

lemmas handler_defs =
  sendQueryToServer_def fetch_def appendChild_def catch_block_def timer_callback_def
  on_query_def clearTimeout_def setTimeout_def timer_fire_def voice_click_def
  annyang_start_def annyang_abort_def
  empty_query_error_def send_click_def keydown_def

subsection \<open>sendQueryToServer\<close>

lemma sendQueryToServer_transcript:
  "transcript (sendQueryToServer s q) =
     transcript s @
       [\<lparr>node_id = next_node s, classes = [''query-message''], content = InnerHTML q\<rparr>,
        \<lparr>node_id = Suc (next_node s), classes = [''loading-spinner''], content = NoContent\<rparr>]"
  by (simp add: sendQueryToServer_def fetch_def appendChild_def Let_def)

lemma sendQueryToServer_field: "field (sendQueryToServer s q) = ''''"
  by (simp add: sendQueryToServer_def fetch_def appendChild_def Let_def)

lemma sendQueryToServer_requests:
  "requests (sendQueryToServer s q) =
     requests s @
       [\<lparr>req_url = ''/query'', req_method = ''POST'',
         req_headers = [(''Content-Type'', ''application/json'')],
         req_body = [(''query'', q)]\<rparr>]"
  by (simp add: sendQueryToServer_def fetch_def appendChild_def Let_def)

lemma sendQueryToServer_inflight:
  "inflight (sendQueryToServer s q) = inflight s @ [(length (requests s), Suc (next_node s))]"
  by (simp add: sendQueryToServer_def fetch_def appendChild_def Let_def)

lemma sendQueryToServer_frame:
  "timers (sendQueryToServer s q) = timers s"
  "inactivityTimer (sendQueryToServer s q) = inactivityTimer s"
  "now (sendQueryToServer s q) = now s"
  "listening (sendQueryToServer s q) = listening s"
  "engine_calls (sendQueryToServer s q) = engine_calls s"
  "mic_active (sendQueryToServer s q) = mic_active s"
  "next_node (sendQueryToServer s q) = Suc (Suc (next_node s))"
  "next_timer (sendQueryToServer s q) = next_timer s"
  by (simp_all add: sendQueryToServer_def fetch_def appendChild_def Let_def)

lemmas sendQueryToServer_simps =
  sendQueryToServer_transcript sendQueryToServer_field sendQueryToServer_requests
  sendQueryToServer_inflight sendQueryToServer_frame

subsection \<open>resume\<close>

lemma resume_not_inflight:
  "map_of (inflight s) rid = None \<Longrightarrow> resume str rsp s rid out = s"
  by (simp add: resume_def annyang_abort_def)

lemma resume_field: "field (resume str rsp s rid out) = field s"
  by (simp add: resume_def annyang_abort_def catch_block_def appendChild_def Let_def
      split: option.splits outcome.splits body_read.splits)

lemma resume_timers:
  "timers (resume str rsp s rid out) = timers s"
  "inactivityTimer (resume str rsp s rid out) = inactivityTimer s"
  "now (resume str rsp s rid out) = now s"
  "requests (resume str rsp s rid out) = requests s"
  by (simp_all add: resume_def annyang_abort_def catch_block_def appendChild_def Let_def
      split: option.splits outcome.splits body_read.splits)

lemma resume_success:
  assumes "map_of (inflight s) rid = Some k" and "rsp result = Some r"
  shows "resume str rsp s rid (Responded True (JsonValue result)) =
     s\<lparr>inflight := filter (\<lambda>p. fst p \<noteq> rid) (inflight s),
       transcript := remove_node k (transcript s) @
          [\<lparr>node_id = next_node s, classes = [''response''],
            content = InnerHTML (replace_newlines r)\<rparr>],
       next_node := Suc (next_node s), engine_calls := engine_calls s @ [Abort],
       mic_active := False\<rparr>"
  using assms by (simp add: resume_def appendChild_def annyang_abort_def Let_def)

lemma resume_type_error:
  assumes "map_of (inflight s) rid = Some k" and "rsp result = None"
  shows "resume str rsp s rid (Responded True (JsonValue result)) =
     s\<lparr>inflight := filter (\<lambda>p. fst p \<noteq> rid) (inflight s),
       transcript := remove_node k (transcript s) @
          [\<lparr>node_id = Suc (next_node s), classes = [''error''],
            content = InnerHTML
              ''An error occurred while processing your query. Please try again later.''\<rparr>],
       next_node := Suc (Suc (next_node s))\<rparr>"
  using assms
  by (simp add: resume_def annyang_abort_def catch_block_def appendChild_def Let_def)

lemma resume_http_error:
  assumes "map_of (inflight s) rid = Some k"
  shows "resume str rsp s rid (Responded False (JsonValue j)) =
     s\<lparr>inflight := filter (\<lambda>p. fst p \<noteq> rid) (inflight s),
       transcript := transcript s @
          [\<lparr>node_id = next_node s, classes = [''error''],
            content = InnerText (''Error: '' @ str j)\<rparr>],
       next_node := Suc (next_node s)\<rparr>"
  using assms by (simp add: resume_def annyang_abort_def appendChild_def Let_def)

lemma resume_exception:
  assumes "map_of (inflight s) rid = Some k"
    and "out = FetchRejected \<or> out = Responded ok JsonRejected"
  shows "resume str rsp s rid out =
     s\<lparr>inflight := filter (\<lambda>p. fst p \<noteq> rid) (inflight s),
       transcript := transcript s @
          [\<lparr>node_id = next_node s, classes = [''error''],
            content = InnerHTML
              ''An error occurred while processing your query. Please try again later.''\<rparr>],
       next_node := Suc (next_node s)\<rparr>"
  using assms
  by (auto simp add: resume_def annyang_abort_def catch_block_def appendChild_def Let_def)


subsection \<open>Invariants of the event loop\<close>

lemma timers_ok_frame:
  "timers s' = timers s \<Longrightarrow> inactivityTimer s' = inactivityTimer s \<Longrightarrow>
   timers_ok s' = timers_ok s"
  by (simp add: timers_ok_def)

lemma clearTimeout_all:
  "timers_ok s \<Longrightarrow> timers (clearTimeout (s\<lparr>field := q\<rparr>) (inactivityTimer s)) = []"
  by (cases "timers s")
     (auto simp add: timers_ok_def clearTimeout_def split: option.splits)

lemma on_query_timers:
  "timers_ok s \<Longrightarrow> timers (on_query s q) = [(next_timer s, now s + silenceDelay)]"
  using clearTimeout_all [of s q]
  by (simp add: on_query_def setTimeout_def Let_def)
     (simp add: clearTimeout_def split: option.splits)

lemma on_query_handle: "inactivityTimer (on_query s q) = Some (next_timer s)"
  by (simp add: on_query_def setTimeout_def clearTimeout_def Let_def split: option.splits)

lemma on_query_timers_ok: "timers_ok s \<Longrightarrow> timers_ok (on_query s q)"
  using on_query_timers [of s q] on_query_handle [of s q]
  by (simp add: timers_ok_def)

lemma timer_fire_timers_ok: "timers_ok s \<Longrightarrow> timers_ok (timer_fire s i)"
  by (cases "timers s")
     (auto simp add: timers_ok_def timer_fire_def timer_callback_def Let_def
        sendQueryToServer_frame split: option.splits if_splits)

lemma step_timers_ok: "timers_ok s \<Longrightarrow> timers_ok (step str rsp s e)"
proof (cases e)
  case (Speech q)
  assume "timers_ok s"
  with Speech show ?thesis by (simp add: step_def on_query_timers_ok)
next
  case (TimerFire i)
  assume "timers_ok s"
  with TimerFire show ?thesis by (simp add: step_def timer_fire_timers_ok)
next
  case (Settled rid out)
  assume "timers_ok s"
  with Settled show ?thesis
    by (simp add: step_def resume_timers timers_ok_frame [of "resume str rsp s rid out" s])
next
  case (KeyDown k sh)
  assume "timers_ok s"
  with KeyDown show ?thesis
    by (simp add: step_def timers_ok_def keydown_def empty_query_error_def appendChild_def
        sendQueryToServer_frame Let_def)
qed (simp_all add: step_def timers_ok_def voice_click_def annyang_start_def
       annyang_abort_def send_click_def
       empty_query_error_def appendChild_def sendQueryToServer_frame Let_def)

lemma run_timers_ok: "timers_ok s \<Longrightarrow> timers_ok (run str rsp s es)"
  unfolding run_def
  by (induction es arbitrary: s) (simp_all add: step_timers_ok)

lemma timers_ok_init: "timers_ok init_state"
  by (simp add: timers_ok_def init_state_def)

lemma timers_ok_length: "timers_ok s \<Longrightarrow> length (timers s) \<le> 1"
  by (simp add: timers_ok_def)


lemma run_Nil: "run str rsp s [] = s"
  by (simp add: run_def)

lemma run_Cons: "run str rsp s (e # es) = run str rsp (step str rsp s e) es"
  by (simp add: run_def)

lemma run_snoc: "run str rsp s (es @ [e]) = step str rsp (run str rsp s es) e"
  by (simp add: run_def)

subsection \<open>Fresh identities\<close>

lemma ids_ok_init: "ids_ok init_state"
  by (simp add: ids_ok_def init_state_def)

lemma list_all_less_mono:
  "list_all (\<lambda>x. f x < (m::nat)) xs \<Longrightarrow> m \<le> n \<Longrightarrow> list_all (\<lambda>x. f x < n) xs"
  by (induction xs) auto

lemma list_all_filter: "list_all P xs \<Longrightarrow> list_all P (filter Q xs)"
  by (induction xs) auto

lemma sendQueryToServer_ids_ok: "ids_ok s \<Longrightarrow> ids_ok (sendQueryToServer s q)"
  by (auto simp add: ids_ok_def sendQueryToServer_simps
      intro: list_all_less_mono [where m = "next_node s"]
        list_all_less_mono [where m = "length (requests s)"])

lemma empty_query_error_ids_ok: "ids_ok s \<Longrightarrow> ids_ok (empty_query_error s)"
  by (auto simp add: ids_ok_def empty_query_error_def appendChild_def
      intro: list_all_less_mono [where m = "next_node s"])

lemma resume_ids_ok: "ids_ok s \<Longrightarrow> ids_ok (resume str rsp s rid out)"
  by (auto simp add: ids_ok_def resume_def annyang_abort_def catch_block_def appendChild_def
      remove_node_def
      Let_def list_all_filter
      split: option.splits outcome.splits body_read.splits
      intro: list_all_less_mono [where m = "next_node s"])

lemma step_ids_ok: "ids_ok s \<Longrightarrow> ids_ok (step str rsp s e)"
proof (cases e)
  case (Speech q)
  assume "ids_ok s"
  with Speech show ?thesis
    by (simp add: step_def ids_ok_def on_query_def setTimeout_def clearTimeout_def Let_def
        split: option.splits)
next
  case (TimerFire i)
  assume ok: "ids_ok s"
  then have "ids_ok (s\<lparr>timers := filter (\<lambda>t. fst t \<noteq> i) (timers s)\<rparr>)"
    by (simp add: ids_ok_def)
  with ok TimerFire show ?thesis
    by (simp add: step_def timer_fire_def timer_callback_def Let_def sendQueryToServer_ids_ok
        split: option.splits)
next
  case SendClick
  assume "ids_ok s"
  with SendClick show ?thesis
    by (simp add: step_def send_click_def Let_def sendQueryToServer_ids_ok
        empty_query_error_ids_ok)
next
  case (KeyDown k sh)
  assume "ids_ok s"
  with KeyDown show ?thesis
    by (simp add: step_def keydown_def Let_def sendQueryToServer_ids_ok
        empty_query_error_ids_ok)
next
  case (Settled rid out)
  assume "ids_ok s"
  with Settled show ?thesis by (simp add: step_def resume_ids_ok)
qed (simp_all add: step_def ids_ok_def voice_click_def annyang_start_def annyang_abort_def)

lemma run_ids_ok: "ids_ok s \<Longrightarrow> ids_ok (run str rsp s es)"
  unfolding run_def
  by (induction es arbitrary: s) (simp_all add: step_ids_ok)

lemma map_of_fresh:
  "list_all (\<lambda>p. fst p < (n::nat)) xs \<Longrightarrow> map_of (xs @ [(n, k)]) n = Some k"
  by (induction xs) auto

lemma remove_node_fresh:
  "list_all (\<lambda>n. node_id n < m) ns \<Longrightarrow> remove_node (Suc m) ns = ns"
  by (induction ns) (auto simp add: remove_node_def)

subsection \<open>The silence window\<close>

lemma armed_on_query: "timers_ok s \<Longrightarrow> armed (on_query s q) 0"
proof -
  assume ok: "timers_ok s"
  have "now (on_query s q) = now s"
    by (simp add: on_query_def setTimeout_def clearTimeout_def Let_def split: option.splits)
  with ok show ?thesis
    by (simp add: armed_def on_query_timers_ok on_query_timers silenceDelay_def)
qed

lemma armed_timer_fire: "armed s t \<Longrightarrow> timer_fire s i = s"
proof -
  assume a: "armed s t"
  show ?thesis
  proof (cases "map_of (timers s) i")
    case None
    then show ?thesis by (simp add: timer_fire_def)
  next
    case (Some due)
    then have "(i, due) \<in> set (timers s)" by (rule map_of_SomeD)
    with a have "now s + silenceDelay \<le> due + t" and "t < silenceDelay"
      by (auto simp add: armed_def list_all_iff)
    then have "\<not> due \<le> now s" by simp
    with Some show ?thesis by (simp add: timer_fire_def)
  qed
qed

lemma armed_frame:
  "armed s t \<Longrightarrow> timers s' = timers s \<Longrightarrow> inactivityTimer s' = inactivityTimer s \<Longrightarrow>
   now s' = now s \<Longrightarrow> armed s' t"
  by (simp add: armed_def timers_ok_def)

lemma armed_advance:
  "armed s t \<Longrightarrow> t + d < silenceDelay \<Longrightarrow> armed (s\<lparr>now := now s + d\<rparr>) (t + d)"
  by (auto simp add: armed_def timers_ok_def list_all_iff)

lemma within_delay_no_request:
  "armed s t \<Longrightarrow> within_delay t es \<Longrightarrow> requests (run str rsp s es) = requests s"
proof (induction es arbitrary: s t)
  case Nil
  show ?case by (simp add: run_Nil)
next
  case (Cons e es)
  show ?case
  proof (cases e)
    case (Speech q)
    from Cons.prems have "timers_ok s" by (simp add: armed_def)
    then have "armed (on_query s q) 0" by (rule armed_on_query)
    moreover from Cons.prems Speech have "within_delay 0 es" by simp
    ultimately have "requests (run str rsp (on_query s q) es) = requests (on_query s q)"
      by (rule Cons.IH)
    moreover have "requests (on_query s q) = requests s"
      by (simp add: on_query_def setTimeout_def clearTimeout_def Let_def split: option.splits)
    ultimately show ?thesis using Speech by (simp add: run_Cons step_def)
  next
    case (Advance d)
    with Cons.prems have "t + d < silenceDelay" and w: "within_delay (t + d) es" by simp_all
    with Cons.prems have "armed (s\<lparr>now := now s + d\<rparr>) (t + d)"
      by (simp add: armed_advance)
    from Cons.IH [OF this w] Advance show ?thesis by (simp add: run_Cons step_def)
  next
    case (TimerFire i)
    with Cons.prems have w: "within_delay t es" by simp
    from Cons.prems have "timer_fire s i = s" by (simp add: armed_timer_fire)
    with Cons.IH [OF Cons.prems(1) w] TimerFire show ?thesis by (simp add: run_Cons step_def)
  next
    case VoiceClick
    with Cons.prems have w: "within_delay t es" by simp
    from Cons.prems(1) have "armed (voice_click s) t"
      by (rule armed_frame) (simp_all add: voice_click_def annyang_start_def annyang_abort_def)
    from Cons.IH [OF this w] VoiceClick show ?thesis
      by (simp add: run_Cons step_def voice_click_def annyang_start_def annyang_abort_def)
  next
    case SendClick
    with Cons.prems show ?thesis by simp
  next
    case (KeyDown k sh)
    with Cons.prems show ?thesis by simp
  next
    case (Typed v)
    with Cons.prems have w: "within_delay t es" by simp
    from Cons.prems(1) have "armed (s\<lparr>field := v\<rparr>) t"
      by (rule armed_frame) simp_all
    from Cons.IH [OF this w] Typed show ?thesis by (simp add: run_Cons step_def)
  next
    case (Settled rid out)
    with Cons.prems have w: "within_delay t es" by simp
    from Cons.prems(1) have "armed (resume str rsp s rid out) t"
      by (rule armed_frame) (simp_all add: resume_timers)
    from Cons.IH [OF this w] Settled show ?thesis
      by (simp add: run_Cons step_def resume_timers)
  next
    case EngineStarted
    with Cons.prems have w: "within_delay t es" by simp
    from Cons.prems(1) have "armed (s\<lparr>listening := True\<rparr>) t"
      by (rule armed_frame) simp_all
    from Cons.IH [OF this w] EngineStarted show ?thesis by (simp add: run_Cons step_def)
  next
    case EngineEnded
    with Cons.prems have w: "within_delay t es" by simp
    from Cons.prems(1) have "armed (s\<lparr>listening := False\<rparr>) t"
      by (rule armed_frame) simp_all
    from Cons.IH [OF this w] EngineEnded show ?thesis by (simp add: run_Cons step_def)
  qed
qed

lemmas eval_defs =
  run_def step_def handler_defs resume_def init_state_def trim_def is_js_space_def
  remove_node_def replace_newlines_def silenceDelay_def Let_def

subsection \<open>C1: the placeholder on the failure paths\<close>

text \<open>
  Claim C1: every submission has at most one loading placeholder while it is in flight, and
  that placeholder is removed exactly once, whether the submission ends in a success
  response, a server-reported error or a transport exception.

  The script removes the placeholder on the success path only. Below, the text \<open>bad\<close> is
  sent and the request ends once with a server-reported error and once with a rejected
  \<^verbatim>\<open>fetch\<close>: in both runs nothing is in flight any more and the placeholder, node 1, is
  still in the transcript, next to the error entry.
\<close>

theorem C1_placeholder_left_after_failure:
  "inflight (run id Some init_state
       [Typed ''bad'', SendClick, Settled 0 (Responded False (JsonValue ''{down}''))]) = []
   \<and> transcript (run id Some init_state
       [Typed ''bad'', SendClick, Settled 0 (Responded False (JsonValue ''{down}''))]) =
       [\<lparr>node_id = 0, classes = [''query-message''], content = InnerHTML ''bad''\<rparr>,
        \<lparr>node_id = 1, classes = [''loading-spinner''], content = NoContent\<rparr>,
        \<lparr>node_id = 2, classes = [''error''], content = InnerText ''Error: {down}''\<rparr>]
   \<and> inflight (run id Some init_state
       [Typed ''bad'', SendClick, Settled 0 (FetchRejected :: string outcome)]) = []
   \<and> transcript (run id Some init_state
       [Typed ''bad'', SendClick, Settled 0 (FetchRejected :: string outcome)]) =
       [\<lparr>node_id = 0, classes = [''query-message''], content = InnerHTML ''bad''\<rparr>,
        \<lparr>node_id = 1, classes = [''loading-spinner''], content = NoContent\<rparr>,
        \<lparr>node_id = 2, classes = [''error''],
         content = InnerHTML
           ''An error occurred while processing your query. Please try again later.''\<rparr>]"
  by (simp add: eval_defs)

subsection \<open>C2: the listening indicator\<close>




subsection \<open>C3: the inactivity timer\<close>

text \<open>
  Claim C3: for every speech fragment the handler replaces the field's contents with the
  fragment, cancels the timeout held in \<^verbatim>\<open>inactivityTimer\<close> and schedules a new one, due
  3000 ms later, and issues no request. So at most one timeout is pending in every reachable
  state, after a fragment it is the one just scheduled, and no request is issued as long as
  fragments keep arriving less than 3000 ms apart (and nobody submits by hand). When a
  pending timeout has expired, its callback submits the field's trimmed text, once, if that
  text is not empty, and otherwise only the timeout is gone.
\<close>

theorem C3_debounce:
  "field (on_query s q) = q
   \<and> transcript (on_query s q) = transcript s
   \<and> requests (on_query s q) = requests s
   \<and> inflight (on_query s q) = inflight s
   \<and> timers (on_query s q) =
       filter (\<lambda>t. Some (fst t) \<noteq> inactivityTimer s) (timers s)
         @ [(next_timer s, now s + 3000)]
   \<and> inactivityTimer (on_query s q) = Some (next_timer s)
   \<and> length (timers (run str rsp init_state es)) \<le> 1
   \<and> timers (on_query (run str rsp init_state es) q) =
       [(next_timer (run str rsp init_state es), now (run str rsp init_state es) + 3000)]
   \<and> (within_delay 0 es' \<longrightarrow>
        requests (run str rsp (on_query (run str rsp init_state es) q) es') =
          requests (run str rsp init_state es))
   \<and> (map_of (timers s) i = Some due \<and> due \<le> now s \<and> trim (field s) \<noteq> '''' \<longrightarrow>
        timer_fire s i =
          sendQueryToServer (s\<lparr>timers := filter (\<lambda>t. fst t \<noteq> i) (timers s)\<rparr>)
            (trim (field s))
        \<and> requests (timer_fire s i) =
            requests s @
              [\<lparr>req_url = ''/query'', req_method = ''POST'',
                req_headers = [(''Content-Type'', ''application/json'')],
                req_body = [(''query'', trim (field s))]\<rparr>])
   \<and> (map_of (timers s) i = Some due \<and> due \<le> now s \<and> trim (field s) = '''' \<longrightarrow>
        timer_fire s i = s\<lparr>timers := filter (\<lambda>t. fst t \<noteq> i) (timers s)\<rparr>)"
proof -
  let ?s = "run str rsp init_state es"
  have ok: "timers_ok ?s" by (rule run_timers_ok) (rule timers_ok_init)
  have one: "length (timers ?s) \<le> 1" using ok by (rule timers_ok_length)
  have single: "timers (on_query ?s q) = [(next_timer ?s, now ?s + 3000)]"
    using on_query_timers [OF ok, of q] by (simp add: silenceDelay_def)
  have quiet: "within_delay 0 es' \<longrightarrow>
        requests (run str rsp (on_query ?s q) es') = requests ?s"
  proof
    assume w: "within_delay 0 es'"
    have "requests (run str rsp (on_query ?s q) es') = requests (on_query ?s q)"
      using armed_on_query [OF ok] w by (rule within_delay_no_request)
    also have "requests (on_query ?s q) = requests ?s"
      by (simp add: on_query_def setTimeout_def clearTimeout_def Let_def split: option.splits)
    finally show "requests (run str rsp (on_query ?s q) es') = requests ?s" .
  qed
  have handler: "field (on_query s q) = q
     \<and> transcript (on_query s q) = transcript s
     \<and> requests (on_query s q) = requests s
     \<and> inflight (on_query s q) = inflight s
     \<and> timers (on_query s q) =
         filter (\<lambda>t. Some (fst t) \<noteq> inactivityTimer s) (timers s)
           @ [(next_timer s, now s + 3000)]
     \<and> inactivityTimer (on_query s q) = Some (next_timer s)"
    by (cases "inactivityTimer s")
       (simp_all add: on_query_def setTimeout_def clearTimeout_def silenceDelay_def Let_def)
  have expiry: "(map_of (timers s) i = Some due \<and> due \<le> now s \<and> trim (field s) \<noteq> '''' \<longrightarrow>
        timer_fire s i =
          sendQueryToServer (s\<lparr>timers := filter (\<lambda>t. fst t \<noteq> i) (timers s)\<rparr>)
            (trim (field s))
        \<and> requests (timer_fire s i) =
            requests s @
              [\<lparr>req_url = ''/query'', req_method = ''POST'',
                req_headers = [(''Content-Type'', ''application/json'')],
                req_body = [(''query'', trim (field s))]\<rparr>])
   \<and> (map_of (timers s) i = Some due \<and> due \<le> now s \<and> trim (field s) = '''' \<longrightarrow>
        timer_fire s i = s\<lparr>timers := filter (\<lambda>t. fst t \<noteq> i) (timers s)\<rparr>)"
    by (simp add: timer_fire_def timer_callback_def sendQueryToServer_requests Let_def)
  from handler one single quiet expiry show ?thesis by (simp only: simp_thms)
qed

theorem C3_debounce_witness:
  "within_delay 0 [Advance 2000, TimerFire 0, Speech ''b'', Advance 2999, TimerFire 1 :: string event]
   \<and> requests (run id Some (on_query init_state ''a'')
        [Advance 2000, TimerFire 0, Speech ''b'', Advance 2999, TimerFire 1]) = []
   \<and> map_of (timers (run id Some init_state [Speech '' hi '', Advance 3000])) 0 = Some 3000
   \<and> 3000 \<le> now (run id Some init_state [Speech '' hi '', Advance 3000])
   \<and> trim (field (run id Some init_state [Speech '' hi '', Advance 3000])) \<noteq> ''''
   \<and> requests (timer_fire (run id Some init_state [Speech '' hi '', Advance 3000]) 0) =
       [\<lparr>req_url = ''/query'', req_method = ''POST'',
         req_headers = [(''Content-Type'', ''application/json'')],
         req_body = [(''query'', ''hi'')]\<rparr>]
   \<and> map_of (timers (run id Some init_state [Speech ''  '', Advance 3000])) 0 = Some 3000
   \<and> 3000 \<le> now (run id Some init_state [Speech ''  '', Advance 3000])
   \<and> trim (field (run id Some init_state [Speech ''  '', Advance 3000])) = ''''
   \<and> requests (timer_fire (run id Some init_state [Speech ''  '', Advance 3000]) 0) = []
   \<and> transcript (timer_fire (run id Some init_state [Speech ''  '', Advance 3000]) 0) = []
   \<and> timers (timer_fire (run id Some init_state [Speech ''  '', Advance 3000]) 0) = []"
proof -
  let ?es = "[Advance 2000, TimerFire 0, Speech ''b'', Advance 2999, TimerFire 1 :: string event]"
  let ?s1 = "run id Some init_state [Speech '' hi '', Advance 3000]"
  let ?s2 = "run id Some init_state [Speech ''  '', Advance 3000]"
  have w: "within_delay 0 ?es" by (simp add: silenceDelay_def)
  have s1: "?s1 = init_state\<lparr>field := '' hi '', timers := [(0, 3000)], next_timer := 1,
                             inactivityTimer := Some 0, now := 3000\<rparr>"
    by (simp add: eval_defs)
  have s2: "?s2 = init_state\<lparr>field := ''  '', timers := [(0, 3000)], next_timer := 1,
                             inactivityTimer := Some 0, now := 3000\<rparr>"
    by (simp add: eval_defs)
  have t1: "trim '' hi '' = ''hi''" by (simp add: trim_def is_js_space_def)
  have t2: "trim ''  '' = ''''" by (simp add: trim_def is_js_space_def)
  show ?thesis
    using w
      C3_debounce [where str = id and rsp = Some and es = "[]" and q = "''a''" and es' = ?es
        and s = ?s1 and i = 0 and due = 3000]
      C3_debounce [where str = id and rsp = Some and es = "[]" and q = "''a''" and es' = ?es
        and s = ?s2 and i = 0 and due = 3000]
    unfolding s1 s2
    by (simp add: run_Nil init_state_def t1 t2 silenceDelay_def sendQueryToServer_simps)
qed

subsection \<open>C4: the submission\<close>

text \<open>
  Claim C4: for every non-empty query string, the submission appends a query entry and then
  a loading placeholder to the transcript, clears the input field, and issues one POST
  request to \<^verbatim>\<open>/query\<close> whose JSON body is the object with the one property \<open>query\<close>, set to
  the query string. The function does so for every string; its callers never pass the empty
  one.
\<close>

theorem C4_submit:
  "transcript (sendQueryToServer s q) =
     transcript s @
       [\<lparr>node_id = next_node s, classes = [''query-message''], content = InnerHTML q\<rparr>,
        \<lparr>node_id = Suc (next_node s), classes = [''loading-spinner''], content = NoContent\<rparr>]
   \<and> field (sendQueryToServer s q) = ''''
   \<and> requests (sendQueryToServer s q) =
       requests s @
         [\<lparr>req_url = ''/query'', req_method = ''POST'',
           req_headers = [(''Content-Type'', ''application/json'')],
           req_body = [(''query'', q)]\<rparr>]
   \<and> inflight (sendQueryToServer s q) = inflight s @ [(length (requests s), Suc (next_node s))]"
  by (simp add: sendQueryToServer_simps)

subsection \<open>C5: the success path\<close>

text \<open>
  Claim C5: when the request of a submission succeeds with a JSON body whose property
  \<open>response\<close> is the string \<open>r\<close>, the loading placeholder is removed and exactly one response
  entry is appended, whose content is \<open>r\<close> with every newline replaced by a line break
  (no newline is left, and a text without newlines is unchanged). When the response arrives
  right after the submission, in any reachable state, the transcript has gained the query
  entry and then the response entry, and nothing else.
\<close>

theorem C5_success:
  assumes "rsp result = Some r"
  shows "(map_of (inflight s) rid = Some k \<longrightarrow>
            transcript (resume str rsp s rid (Responded True (JsonValue result))) =
              remove_node k (transcript s) @
                [\<lparr>node_id = next_node s, classes = [''response''],
                  content = InnerHTML (replace_newlines r)\<rparr>])
       \<and> transcript
           (resume str rsp (sendQueryToServer (run str rsp init_state es) q)
              (length (requests (run str rsp init_state es))) (Responded True (JsonValue result))) =
           transcript (run str rsp init_state es) @
             [\<lparr>node_id = next_node (run str rsp init_state es), classes = [''query-message''],
               content = InnerHTML q\<rparr>,
              \<lparr>node_id = next_node (run str rsp init_state es) + 2, classes = [''response''],
               content = InnerHTML (replace_newlines r)\<rparr>]
       \<and> CHR 0x0A \<notin> set (replace_newlines r)
       \<and> (CHR 0x0A \<notin> set r \<longrightarrow> replace_newlines r = r)"
proof -
  let ?s = "run str rsp init_state es"
  have ok: "ids_ok ?s" by (rule run_ids_ok) (rule ids_ok_init)
  have fl: "map_of (inflight (sendQueryToServer ?s q)) (length (requests ?s))
              = Some (Suc (next_node ?s))"
    using ok by (simp add: sendQueryToServer_inflight ids_ok_def map_of_fresh del: map_of_append)
  have rm: "remove_node (Suc (next_node ?s)) (transcript (sendQueryToServer ?s q)) =
              transcript ?s @
                [\<lparr>node_id = next_node ?s, classes = [''query-message''],
                  content = InnerHTML q\<rparr>]"
    using ok remove_node_fresh [of "next_node ?s" "transcript ?s"]
    by (simp add: sendQueryToServer_transcript ids_ok_def remove_node_def)
  have nl: "CHR 0x0A \<notin> set (replace_newlines r)"
    by (auto simp add: replace_newlines_def split: if_splits)
  have same: "CHR 0x0A \<notin> set r \<longrightarrow> replace_newlines r = r"
    by (induction r) (simp_all add: replace_newlines_def)
  have gen: "map_of (inflight s) rid = Some k \<longrightarrow>
            transcript (resume str rsp s rid (Responded True (JsonValue result))) =
              remove_node k (transcript s) @
                [\<lparr>node_id = next_node s, classes = [''response''],
                  content = InnerHTML (replace_newlines r)\<rparr>]"
    using assms by (simp add: resume_success [where rsp = rsp and r = r])
  show ?thesis
    using nl same rm gen
    by (simp add: resume_success [where rsp = rsp and result = result, OF fl assms]
        sendQueryToServer_frame)
qed

theorem C5_success_witness:
  "Some (''hi'' @ [CHR 0x0A] @ ''there'') = Some (''hi'' @ [CHR 0x0A] @ ''there'')
   \<and> map_of (inflight (sendQueryToServer init_state ''hello'')) 0 = Some 1
   \<and> transcript
        (resume id Some (sendQueryToServer init_state ''hello'') 0
           (Responded True (JsonValue (''hi'' @ [CHR 0x0A] @ ''there'')))) =
       [\<lparr>node_id = 0, classes = [''query-message''], content = InnerHTML ''hello''\<rparr>,
        \<lparr>node_id = 2, classes = [''response''], content = InnerHTML ''hi<br>there''\<rparr>]"
proof -
  have h: "Some (''hi'' @ [CHR 0x0A] @ ''there'') = Some (''hi'' @ [CHR 0x0A] @ ''there'')"
    by simp
  have f: "map_of (inflight (sendQueryToServer init_state ''hello'')) 0 = Some 1"
    by (simp add: sendQueryToServer_inflight init_state_def)
  show ?thesis
    using f C5_success [where rsp = Some and result = "''hi'' @ [CHR 0x0A] @ ''there''",
        OF h, where str = id and es = "[]" and q = "''hello''"]
    by (simp add: run_Nil init_state_def replace_newlines_def)
qed

subsection \<open>C6: the failure paths\<close>

text \<open>
  Claim C6, as the script has it: when the request of a submission in flight completes with
  a non-success status and a body that parses as JSON, exactly one error entry is appended,
  showing the serialized payload, and the loading placeholder stays; when \<^verbatim>\<open>fetch\<close> is
  rejected or the body cannot be read as JSON, whatever the status, exactly one generic
  error entry is appended and the placeholder stays as well. In these cases every node of
  the transcript is still there afterwards. The generic entry is also what a success status
  gets whose JSON body has no string \<open>response\<close>: there the placeholder has been removed
  before the exception is raised.
\<close>

theorem C6_error_paths:
  assumes "map_of (inflight s) rid = Some k"
  shows "transcript (resume str rsp s rid (Responded False (JsonValue j))) =
           transcript s @
             [\<lparr>node_id = next_node s, classes = [''error''],
               content = InnerText (''Error: '' @ str j)\<rparr>]
       \<and> transcript (resume str rsp s rid FetchRejected) =
           transcript s @
             [\<lparr>node_id = next_node s, classes = [''error''],
               content = InnerHTML
                 ''An error occurred while processing your query. Please try again later.''\<rparr>]
       \<and> transcript (resume str rsp s rid (Responded ok JsonRejected)) =
           transcript s @
             [\<lparr>node_id = next_node s, classes = [''error''],
               content = InnerHTML
                 ''An error occurred while processing your query. Please try again later.''\<rparr>]
       \<and> (\<forall>n \<in> set (transcript s).
             n \<in> set (transcript (resume str rsp s rid (Responded False (JsonValue j))))
             \<and> n \<in> set (transcript (resume str rsp s rid FetchRejected))
             \<and> n \<in> set (transcript (resume str rsp s rid (Responded ok JsonRejected))))
       \<and> (rsp result = None \<longrightarrow>
            transcript (resume str rsp s rid (Responded True (JsonValue result))) =
              remove_node k (transcript s) @
                [\<lparr>node_id = Suc (next_node s), classes = [''error''],
                  content = InnerHTML
                    ''An error occurred while processing your query. Please try again later.''\<rparr>])"
  by (simp add: resume_http_error [OF assms] resume_exception [OF assms]
      resume_type_error [where rsp = rsp and result = result, OF assms])

theorem C6_error_paths_witness:
  "map_of (inflight (sendQueryToServer init_state ''bad'')) 0 = Some 1
   \<and> \<lparr>node_id = 1, classes = [''loading-spinner''], content = NoContent\<rparr>
        \<in> set (transcript (sendQueryToServer init_state ''bad''))
   \<and> map_of [] ''{}'' = (None :: string option)
   \<and> transcript
        (resume id Some (sendQueryToServer init_state ''bad'') 0
           (Responded False (JsonValue ''{down}''))) =
       [\<lparr>node_id = 0, classes = [''query-message''], content = InnerHTML ''bad''\<rparr>,
        \<lparr>node_id = 1, classes = [''loading-spinner''], content = NoContent\<rparr>,
        \<lparr>node_id = 2, classes = [''error''], content = InnerText ''Error: {down}''\<rparr>]
   \<and> transcript (resume id Some (sendQueryToServer init_state ''bad'') 0 FetchRejected) =
       [\<lparr>node_id = 0, classes = [''query-message''], content = InnerHTML ''bad''\<rparr>,
        \<lparr>node_id = 1, classes = [''loading-spinner''], content = NoContent\<rparr>,
        \<lparr>node_id = 2, classes = [''error''],
         content = InnerHTML
           ''An error occurred while processing your query. Please try again later.''\<rparr>]
   \<and> transcript
        (resume id (map_of []) (sendQueryToServer init_state ''bad'') 0
           (Responded True (JsonValue ''{}''))) =
       [\<lparr>node_id = 0, classes = [''query-message''], content = InnerHTML ''bad''\<rparr>,
        \<lparr>node_id = 3, classes = [''error''],
         content = InnerHTML
           ''An error occurred while processing your query. Please try again later.''\<rparr>]"
proof -
  have h: "map_of (inflight (sendQueryToServer init_state ''bad'')) 0 = Some 1"
    by (simp add: sendQueryToServer_inflight init_state_def)
  show ?thesis
    using h C6_error_paths [OF h, where str = id and rsp = Some and j = "''{down}''"]
      C6_error_paths [OF h, where str = id and rsp = "map_of []" and result = "''{}''"]
    by (simp add: sendQueryToServer_simps init_state_def remove_node_def)
qed

text \<open>
  The claim as worded fails twice. A non-success status whose body does not parse as JSON
  gets the generic entry, with no payload in it: below, the text \<open>bad\<close> is sent and the
  request ends with such a response. And the exception raised for a success status whose
  body has no string \<open>response\<close> comes after the placeholder was removed: in the second
  run the generic entry is there and the placeholder, node 1, is not.
\<close>

theorem C6_unreadable_body_and_late_exception:
  "transcript (run id Some init_state
       [Typed ''bad'', SendClick, Settled 0 (Responded False (JsonRejected :: string body_read))]) =
       [\<lparr>node_id = 0, classes = [''query-message''], content = InnerHTML ''bad''\<rparr>,
        \<lparr>node_id = 1, classes = [''loading-spinner''], content = NoContent\<rparr>,
        \<lparr>node_id = 2, classes = [''error''],
         content = InnerHTML
           ''An error occurred while processing your query. Please try again later.''\<rparr>]
   \<and> transcript (run id (map_of []) init_state
       [Typed ''bad'', SendClick, Settled 0 (Responded True (JsonValue ''{}''))]) =
       [\<lparr>node_id = 0, classes = [''query-message''], content = InnerHTML ''bad''\<rparr>,
        \<lparr>node_id = 3, classes = [''error''],
         content = InnerHTML
           ''An error occurred while processing your query. Please try again later.''\<rparr>]"
  by (simp add: eval_defs)

subsection \<open>C7: the Send button and the Enter key\<close>

text \<open>
  Claim C7: on a click on Send, or on Enter without shift, when the field's text trims to
  the empty string, exactly one error entry reading
  \<open>Error: Please enter a query before sending.\<close> is appended, and no request is issued,
  so no query entry either; when the trimmed text is not empty it is submitted in the same
  step, and the inactivity timer is neither awaited nor touched.
\<close>

theorem C7_manual_submit:
  assumes "e = SendClick \<or> e = KeyDown ''Enter'' False"
  shows "(trim (field s) = '''' \<longrightarrow>
            transcript (step str rsp s e) =
              transcript s @
                [\<lparr>node_id = next_node s, classes = [''error''],
                  content = InnerHTML ''Error: Please enter a query before sending.''\<rparr>]
            \<and> requests (step str rsp s e) = requests s
            \<and> inflight (step str rsp s e) = inflight s)
       \<and> (trim (field s) \<noteq> '''' \<longrightarrow>
            step str rsp s e = sendQueryToServer s (trim (field s))
            \<and> requests (step str rsp s e) =
                requests s @
                  [\<lparr>req_url = ''/query'', req_method = ''POST'',
                    req_headers = [(''Content-Type'', ''application/json'')],
                    req_body = [(''query'', trim (field s))]\<rparr>]
            \<and> timers (step str rsp s e) = timers s
            \<and> inactivityTimer (step str rsp s e) = inactivityTimer s)"
  using assms
  by (auto simp add: step_def send_click_def keydown_def empty_query_error_def appendChild_def
      sendQueryToServer_simps Let_def)

theorem C7_manual_submit_witness:
  "trim (field (init_state\<lparr>field := ''  ''\<rparr>)) = ''''
   \<and> trim (field (init_state\<lparr>field := '' hello ''\<rparr>)) \<noteq> ''''
   \<and> transcript (step id Some (init_state\<lparr>field := ''  ''\<rparr>) SendClick) =
       [\<lparr>node_id = 0, classes = [''error''],
         content = InnerHTML ''Error: Please enter a query before sending.''\<rparr>]
   \<and> requests (step id Some (init_state\<lparr>field := ''  ''\<rparr>) SendClick) = []
   \<and> requests (step id Some (init_state\<lparr>field := '' hello ''\<rparr>) (KeyDown ''Enter'' False)) =
       [\<lparr>req_url = ''/query'', req_method = ''POST'',
         req_headers = [(''Content-Type'', ''application/json'')],
         req_body = [(''query'', ''hello'')]\<rparr>]"
  using C7_manual_submit [of SendClick "init_state\<lparr>field := ''  ''\<rparr>" id Some]
    C7_manual_submit [of "KeyDown ''Enter'' False" "init_state\<lparr>field := '' hello ''\<rparr>" id Some]
  by (simp add: init_state_def trim_def is_js_space_def sendQueryToServer_requests)

subsection \<open>C8: the voice button\<close>

text \<open>
  Claim C8, as the script has it: a click on the voice button while the engine reports that
  it listens calls \<^verbatim>\<open>abort\<close> and clears the indicator; a click while it does not calls
  \<^verbatim>\<open>start\<close> for continuous listening without restart and sets the indicator. The click
  itself leaves the engine's flag as it is; the flag follows at the engine's start or end
  event. So two clicks, each answered by the engine's event before anything else happens,
  lead from Idle back to Idle with the indicator inactive, and from Listening back to
  Listening with the indicator active.
\<close>

theorem C8_toggle:
  "(listening s \<longrightarrow>
      engine_calls (step str rsp s VoiceClick) = engine_calls s @ [Abort]
      \<and> \<not> mic_active (step str rsp s VoiceClick))
   \<and> (\<not> listening s \<longrightarrow>
      engine_calls (step str rsp s VoiceClick) = engine_calls s @ [Start True False]
      \<and> mic_active (step str rsp s VoiceClick))
   \<and> listening (step str rsp s VoiceClick) = listening s
   \<and> (\<not> listening s \<longrightarrow>
      \<not> listening (run str rsp s [VoiceClick, EngineStarted, VoiceClick, EngineEnded])
      \<and> \<not> mic_active (run str rsp s [VoiceClick, EngineStarted, VoiceClick, EngineEnded])
      \<and> engine_calls (run str rsp s [VoiceClick, EngineStarted, VoiceClick, EngineEnded]) =
          engine_calls s @ [Start True False, Abort])
   \<and> (listening s \<longrightarrow>
      listening (run str rsp s [VoiceClick, EngineEnded, VoiceClick, EngineStarted])
      \<and> mic_active (run str rsp s [VoiceClick, EngineEnded, VoiceClick, EngineStarted])
      \<and> engine_calls (run str rsp s [VoiceClick, EngineEnded, VoiceClick, EngineStarted]) =
          engine_calls s @ [Abort, Start True False])"
  by (simp add: run_def step_def voice_click_def annyang_start_def annyang_abort_def)

theorem C8_toggle_witness:
  "listening (init_state\<lparr>listening := True, mic_active := True\<rparr>)
   \<and> \<not> listening init_state
   \<and> \<not> mic_active (step id Some (init_state\<lparr>listening := True, mic_active := True\<rparr>) VoiceClick)
   \<and> mic_active (step id Some init_state (VoiceClick :: string event))
   \<and> engine_calls (step id Some init_state (VoiceClick :: string event)) = [Start True False]
   \<and> \<not> mic_active
        (run id Some init_state [VoiceClick, EngineStarted, VoiceClick, (EngineEnded :: string event)])
   \<and> mic_active
        (run id Some (init_state\<lparr>listening := True, mic_active := True\<rparr>)
           [VoiceClick, EngineEnded, VoiceClick, (EngineStarted :: string event)])"
  using C8_toggle [of "init_state\<lparr>listening := True, mic_active := True\<rparr>" id Some]
    C8_toggle [of init_state id Some]
  by (simp add: init_state_def)

text \<open>
  The claim as worded, that two clicks in a row give back the state they started from,
  fails when the second click comes before the engine's event: from the loaded page, Idle
  with the indicator inactive, the first click calls \<^verbatim>\<open>start\<close> and sets the indicator; the
  engine still reports that it does not listen, so the second click calls \<^verbatim>\<open>start\<close> again
  and leaves the indicator active.
\<close>

theorem C8_two_clicks_before_engine_event:
  "\<not> listening init_state
   \<and> \<not> mic_active init_state
   \<and> mic_active (run id Some init_state [VoiceClick, (VoiceClick :: string event)])
   \<and> engine_calls (run id Some init_state [VoiceClick, (VoiceClick :: string event)]) =
       [Start True False, Start True False]"
  by (simp add: eval_defs)

subsection \<open>C9: markup and literal text\<close>

text \<open>
  Claim C9: the query entry receives the raw query string through \<^verbatim>\<open>innerHTML\<close>, so
  markup in it reaches the page as markup; so do the texts of the empty-query error and of
  the generic error. The server-error entry receives its text through \<^verbatim>\<open>innerText\<close>,
  and it is the only one: whenever a step adds a node whose content was set through
  \<^verbatim>\<open>innerText\<close>, that step is the completion of a request with a non-success status and
  a JSON payload, and the text is the serialized payload after \<open>Error: \<close>.
\<close>

theorem C9_markup_channels:
  "transcript (sendQueryToServer s q) =
     transcript s @
       [\<lparr>node_id = next_node s, classes = [''query-message''], content = InnerHTML q\<rparr>,
        \<lparr>node_id = Suc (next_node s), classes = [''loading-spinner''], content = NoContent\<rparr>]
   \<and> (trim (field s) = '''' \<longrightarrow>
        transcript (send_click s) =
          transcript s @
            [\<lparr>node_id = next_node s, classes = [''error''],
              content = InnerHTML ''Error: Please enter a query before sending.''\<rparr>]
        \<and> transcript (keydown s ''Enter'' False) =
          transcript s @
            [\<lparr>node_id = next_node s, classes = [''error''],
              content = InnerHTML ''Error: Please enter a query before sending.''\<rparr>])
   \<and> (map_of (inflight s) rid = Some k \<longrightarrow>
        transcript (resume str rsp s rid FetchRejected) =
          transcript s @
            [\<lparr>node_id = next_node s, classes = [''error''],
              content = InnerHTML
                ''An error occurred while processing your query. Please try again later.''\<rparr>]
        \<and> transcript (resume str rsp s rid (Responded False (JsonValue j))) =
          transcript s @
            [\<lparr>node_id = next_node s, classes = [''error''],
              content = InnerText (''Error: '' @ str j)\<rparr>])
   \<and> (n \<in> set (transcript (step str rsp s e)) \<and> n \<notin> set (transcript s)
        \<and> content n = InnerText t \<longrightarrow>
        (\<exists>r i. e = Settled r (Responded False (JsonValue i)) \<and> t = ''Error: '' @ str i))"
proof -
  have only: "n \<in> set (transcript (step str rsp s e)) \<and> n \<notin> set (transcript s)
        \<and> content n = InnerText t \<longrightarrow>
        (\<exists>r i. e = Settled r (Responded False (JsonValue i)) \<and> t = ''Error: '' @ str i)"
  proof (cases e)
    case (Settled rid' out)
    then show ?thesis
      by (auto simp add: step_def resume_def annyang_abort_def catch_block_def appendChild_def
          remove_node_def
          Let_def split: option.splits outcome.splits body_read.splits if_splits)
  next
    case (TimerFire i)
    then show ?thesis
      by (auto simp add: step_def timer_fire_def timer_callback_def sendQueryToServer_simps
          Let_def split: option.splits if_splits)
  qed (auto simp add: step_def on_query_def setTimeout_def clearTimeout_def voice_click_def
        annyang_start_def annyang_abort_def
        send_click_def keydown_def empty_query_error_def appendChild_def
        sendQueryToServer_simps Let_def split: option.splits if_splits)
  have ex: "map_of (inflight s) rid = Some k \<longrightarrow>
        transcript (resume str rsp s rid FetchRejected) =
          transcript s @
            [\<lparr>node_id = next_node s, classes = [''error''],
              content = InnerHTML
                ''An error occurred while processing your query. Please try again later.''\<rparr>]
        \<and> transcript (resume str rsp s rid (Responded False (JsonValue j))) =
          transcript s @
            [\<lparr>node_id = next_node s, classes = [''error''],
              content = InnerText (''Error: '' @ str j)\<rparr>]"
    by (simp add: resume_def annyang_abort_def catch_block_def appendChild_def Let_def)
  have em: "trim (field s) = '''' \<longrightarrow>
        transcript (send_click s) =
          transcript s @
            [\<lparr>node_id = next_node s, classes = [''error''],
              content = InnerHTML ''Error: Please enter a query before sending.''\<rparr>]
        \<and> transcript (keydown s ''Enter'' False) =
          transcript s @
            [\<lparr>node_id = next_node s, classes = [''error''],
              content = InnerHTML ''Error: Please enter a query before sending.''\<rparr>]"
    by (simp add: send_click_def keydown_def empty_query_error_def appendChild_def Let_def)
  from only ex em show ?thesis
    by (simp only: sendQueryToServer_transcript simp_thms)
qed

theorem C9_markup_channels_witness:
  "trim (field (sendQueryToServer init_state ''<b>x</b>'')) = ''''
   \<and> map_of (inflight (sendQueryToServer init_state ''<b>x</b>'')) 0 = Some 1
   \<and> \<lparr>node_id = 2, classes = [''error''], content = InnerText ''Error: {}''\<rparr>
        \<in> set (transcript (step id Some (sendQueryToServer init_state ''<b>x</b>'')
                   (Settled 0 (Responded False (JsonValue ''{}'')))))
   \<and> \<lparr>node_id = 2, classes = [''error''], content = InnerText ''Error: {}''\<rparr>
        \<notin> set (transcript (sendQueryToServer init_state ''<b>x</b>''))
   \<and> content \<lparr>node_id = 2, classes = [''error''], content = InnerText ''Error: {}''\<rparr>
        = InnerText ''Error: {}''
   \<and> transcript (sendQueryToServer init_state ''<b>x</b>'') =
       [\<lparr>node_id = 0, classes = [''query-message''], content = InnerHTML ''<b>x</b>''\<rparr>,
        \<lparr>node_id = 1, classes = [''loading-spinner''], content = NoContent\<rparr>]"
  using C9_markup_channels [where s = init_state and q = "''<b>x</b>''"]
    C9_markup_channels [where s = "sendQueryToServer init_state ''<b>x</b>''" and rid = 0
      and k = 1 and str = id and rsp = Some and j = "''{}''"
      and e = "Settled 0 (Responded False (JsonValue ''{}''))"
      and n = "\<lparr>node_id = 2, classes = [''error''], content = InnerText ''Error: {}''\<rparr>"
      and t = "''Error: {}''"]
  by (simp add: sendQueryToServer_simps init_state_def trim_def step_def resume_def
      annyang_abort_def
      appendChild_def Let_def)

subsection \<open>C10: the input field\<close>

text \<open>
  Claim C10: the submission clears the input field before it issues the request (the call
  of \<^verbatim>\<open>fetch\<close> is made in a state whose field is empty), and the rest of the submission
  never writes to the field, whatever the outcome; so the submitted text is not put back
  when the request fails.
\<close>

theorem C10_field_cleared_and_left:
  "field (sendQueryToServer s q) = ''''
   \<and> (\<exists>s2 r k. sendQueryToServer s q = fetch s2 r k \<and> field s2 = '''')
   \<and> field (resume str rsp s' rid out) = field s'
   \<and> field (resume str rsp (sendQueryToServer s q) rid out) = ''''"
proof -
  have "\<exists>s2 r k. sendQueryToServer s q = fetch s2 r k \<and> field s2 = ''''"
    unfolding sendQueryToServer_def Let_def appendChild_def
    by (intro exI conjI) (rule refl, simp)
  then show ?thesis
    by (simp add: resume_field sendQueryToServer_field)
qed

end
